theory Spec2Isabelle
  imports Main
begin

section \<open>Deferred expression graphs and memoizing sessions\<close>

text \<open>
  A shallow embedding of \<^verbatim>\<open>apache_beam/dataframe/expressions.py\<close>: the class
  \<^verbatim>\<open>Expression\<close> with its three subclasses, and \<^verbatim>\<open>Session\<close>.

  Python values are an arbitrary type \<open>'v\<close>. A Python callable may raise and may have
  side effects (a test counts calls with a counter), so the function of a computed
  expression takes the argument values and the world \<open>'w\<close> outside the session, and gives
  back a result or an exception together with the new world. The functions are assumed not
  to reach into the session's dictionary.
\<close>

subsection \<open>Exceptions\<close>

datatype exn =
    KeyError string              \<comment> \<open>a missing dictionary key, named by its \<^verbatim>\<open>_id\<close>\<close>
  | NotImplementedError string   \<comment> \<open>carries the name of \<^verbatim>\<open>type(self)\<close>\<close>
  | Raised string                \<comment> \<open>any exception raised by a wrapped function\<close>

subsection \<open>Expressions\<close>

text \<open>The attributes set by \<^verbatim>\<open>Expression.__init__\<close>: \<^verbatim>\<open>_name\<close>, \<^verbatim>\<open>_proxy\<close>, \<^verbatim>\<open>_id\<close>.\<close>

record 'v fields =
  x_name :: string
  x_proxy :: 'v
  x_id :: string

type_synonym ('v, 'w) pyfun = "'v list \<Rightarrow> 'w \<Rightarrow> (exn + 'v) \<times> 'w"

text \<open>
  One constructor for each class. \<open>ConstantExpression\<close> adds \<^verbatim>\<open>_value\<close>;
  \<open>ComputedExpression\<close> adds \<^verbatim>\<open>_func\<close>, \<^verbatim>\<open>_args\<close>,
  \<^verbatim>\<open>_requires_partition_by_index\<close> and \<^verbatim>\<open>_preserves_partition_by_index\<close>.
\<close>

datatype ('v, 'w) Expression =
    Expression "'v fields"
  | PlaceholderExpression "'v fields"
  | ConstantExpression "'v fields" 'v
  | ComputedExpression "'v fields" "('v, 'w) pyfun" "('v, 'w) Expression list" bool bool

fun attrs :: "('v, 'w) Expression \<Rightarrow> 'v fields" where
  "attrs (Expression b) = b"
| "attrs (PlaceholderExpression b) = b"
| "attrs (ConstantExpression b v) = b"
| "attrs (ComputedExpression b f as r p) = b"

text \<open>Decimal digits of a natural number, as \<^verbatim>\<open>'%s' % n\<close> prints them.\<close>

function str_nat :: "nat \<Rightarrow> string" where
  "str_nat n =
     (if n < 10 then [''0123456789'' ! n]
      else str_nat (n div 10) @ [''0123456789'' ! (n mod 10)])"
  by pat_completeness auto
termination
  by (relation "measure (\<lambda>n. n)") auto

declare str_nat.simps [simp del]

text \<open>
  \<^verbatim>\<open>'%s_%s' % (name, id(self))\<close>, where \<open>addr\<close> is \<^verbatim>\<open>id(self)\<close>, the address of
  the object under construction: two objects alive together have different addresses.
\<close>

definition default_id :: "string \<Rightarrow> nat \<Rightarrow> string" where
  "default_id name addr = name @ ''_'' @ str_nat addr"

text \<open>
  \<^verbatim>\<open>Expression.__init__(self, name, proxy, _id=None)\<close>. In
  \<^verbatim>\<open>_id or '%s_%s' % (name, id(self))\<close> both \<^verbatim>\<open>None\<close> and the empty string are
  false, so both take the default.
\<close>

definition Expression_init :: "string \<Rightarrow> 'v \<Rightarrow> string option \<Rightarrow> nat \<Rightarrow> 'v fields" where
  "Expression_init name proxy id_arg addr =
     \<lparr> x_name = name, x_proxy = proxy,
       x_id = (case id_arg of
                 None \<Rightarrow> default_id name addr
               | Some i \<Rightarrow> if i = [] then default_id name addr else i) \<rparr>"

definition proxy :: "('v, 'w) Expression \<Rightarrow> 'v" where
  "proxy self = x_proxy (attrs self)"

text \<open>\<^verbatim>\<open>__hash__\<close>, over Python's built-in string hash \<open>h\<close>; \<^verbatim>\<open>__eq__\<close>; \<^verbatim>\<open>__ne__\<close>.\<close>

definition Expression_hash :: "(string \<Rightarrow> int) \<Rightarrow> ('v, 'w) Expression \<Rightarrow> int" where
  "Expression_hash h self = h (x_id (attrs self))"

definition Expression_eq :: "('v, 'w) Expression \<Rightarrow> ('v, 'w) Expression \<Rightarrow> bool" where
  "Expression_eq self other = (x_id (attrs self) = x_id (attrs other))"

definition Expression_ne :: "('v, 'w) Expression \<Rightarrow> ('v, 'w) Expression \<Rightarrow> bool" where
  "Expression_ne self other = (\<not> Expression_eq self other)"

text \<open>\<^verbatim>\<open>PlaceholderExpression.__init__(self, proxy)\<close>.\<close>

definition PlaceholderExpression_init :: "'v \<Rightarrow> nat \<Rightarrow> ('v, 'w) Expression" where
  "PlaceholderExpression_init proxy_arg addr =
     PlaceholderExpression (Expression_init ''placeholder'' proxy_arg None addr)"

text \<open>
  \<^verbatim>\<open>ConstantExpression.__init__(self, value, proxy=None)\<close>; \<open>None\<close> is the proxy left out.
\<close>

definition ConstantExpression_init :: "'v \<Rightarrow> 'v option \<Rightarrow> nat \<Rightarrow> ('v, 'w) Expression" where
  "ConstantExpression_init val proxy_arg addr =
     (let p = (case proxy_arg of None \<Rightarrow> val | Some q \<Rightarrow> q)
      in ConstantExpression (Expression_init ''constant'' p None addr) val)"

text \<open>
  \<^verbatim>\<open>ComputedExpression.__init__(self, name, func, args, proxy=None, _id=None,
  requires_partition_by_index=True, preserves_partition_by_index=False)\<close>. A flag left
  out is \<open>None\<close> here and takes the default of the signature. Without a proxy the
  function runs on the proxies of the arguments, in the world \<open>w\<close>; when it raises, no
  object is made.
\<close>

definition ComputedExpression_init ::
  "string \<Rightarrow> ('v, 'w) pyfun \<Rightarrow> ('v, 'w) Expression list \<Rightarrow> 'v option \<Rightarrow> string option \<Rightarrow>
   bool option \<Rightarrow> bool option \<Rightarrow> nat \<Rightarrow> 'w \<Rightarrow> (exn + ('v, 'w) Expression) \<times> 'w" where
  "ComputedExpression_init name func args proxy_arg id_arg req pres addr w =
     (let r = (case req of None \<Rightarrow> True | Some b \<Rightarrow> b);
          q = (case pres of None \<Rightarrow> False | Some b \<Rightarrow> b)
      in case proxy_arg of
           Some p \<Rightarrow>
             (Inr (ComputedExpression (Expression_init name p id_arg addr) func args r q), w)
         | None \<Rightarrow>
             (case func (map proxy args) w of
                (Inl e, w') \<Rightarrow> (Inl e, w')
              | (Inr p, w') \<Rightarrow>
                  (Inr (ComputedExpression (Expression_init name p id_arg addr) func args r q),
                   w')))"

definition elementwise_expression ::
  "string \<Rightarrow> ('v, 'w) pyfun \<Rightarrow> ('v, 'w) Expression list \<Rightarrow> nat \<Rightarrow> 'w \<Rightarrow>
   (exn + ('v, 'w) Expression) \<times> 'w" where
  "elementwise_expression name func args addr w =
     ComputedExpression_init name func args None None (Some False) (Some True) addr w"

fun requires_partition_by_index :: "('v, 'w) Expression \<Rightarrow> exn + bool" where
  "requires_partition_by_index (Expression b) = Inl (NotImplementedError ''Expression'')"
| "requires_partition_by_index (PlaceholderExpression b) = Inr False"
| "requires_partition_by_index (ConstantExpression b v) = Inr False"
| "requires_partition_by_index (ComputedExpression b f as r p) = Inr r"

fun preserves_partition_by_index :: "('v, 'w) Expression \<Rightarrow> exn + bool" where
  "preserves_partition_by_index (Expression b) = Inl (NotImplementedError ''Expression'')"
| "preserves_partition_by_index (PlaceholderExpression b) = Inr False"
| "preserves_partition_by_index (ConstantExpression b v) = Inr False"
| "preserves_partition_by_index (ComputedExpression b f as r p) = Inr p"

subsection \<open>Dictionaries keyed by expressions\<close>

text \<open>
  A Python \<^verbatim>\<open>dict\<close> whose keys are expressions, as the list of its entries in insertion
  order. A stored key matches a probe when their hashes are equal and \<^verbatim>\<open>__eq__\<close> says so.
  (The dictionary also accepts the very same object without asking \<^verbatim>\<open>__eq__\<close>; an object
  has one \<^verbatim>\<open>_id\<close>, so \<^verbatim>\<open>__eq__\<close> covers that.)
\<close>

type_synonym ('v, 'w) dict = "(('v, 'w) Expression \<times> 'v) list"

definition key_match ::
  "(string \<Rightarrow> int) \<Rightarrow> ('v, 'w) Expression \<Rightarrow> ('v, 'w) Expression \<Rightarrow> bool" where
  "key_match h k e = (Expression_hash h k = Expression_hash h e \<and> Expression_eq k e)"

fun dict_get ::
  "(string \<Rightarrow> int) \<Rightarrow> ('v, 'w) dict \<Rightarrow> ('v, 'w) Expression \<Rightarrow> 'v option" where
  "dict_get h [] e = None"
| "dict_get h ((k, x) # d) e = (if key_match h k e then Some x else dict_get h d e)"

definition dict_contains ::
  "(string \<Rightarrow> int) \<Rightarrow> ('v, 'w) dict \<Rightarrow> ('v, 'w) Expression \<Rightarrow> bool" where
  "dict_contains h d e = (dict_get h d e \<noteq> None)"

text \<open>\<^verbatim>\<open>d[e] = v\<close>: a matching entry keeps its key and takes the value; else a new entry.\<close>

fun dict_set ::
  "(string \<Rightarrow> int) \<Rightarrow> ('v, 'w) dict \<Rightarrow> ('v, 'w) Expression \<Rightarrow> 'v \<Rightarrow> ('v, 'w) dict" where
  "dict_set h [] e v = [(e, v)]"
| "dict_set h ((k, x) # d) e v =
     (if key_match h k e then (k, v) # d else (k, x) # dict_set h d e v)"

subsection \<open>The store and the session\<close>

text \<open>
  Dictionaries are mutable objects: the store maps the address of each dictionary to its
  entries, \<open>next_addr\<close> is the first address not yet given out, and \<open>world\<close> is whatever
  the wrapped functions change. A session holds the address of its \<^verbatim>\<open>_bindings\<close>.
\<close>

record ('v, 'w) state =
  heap :: "nat \<Rightarrow> ('v, 'w) dict"
  next_addr :: nat
  world :: 'w

record Session =
  x_bindings :: nat

text \<open>
  \<^verbatim>\<open>Session.__init__(self, bindings=None)\<close>: \<^verbatim>\<open>self._bindings = dict(bindings or {})\<close>.
  The argument is \<open>None\<close> or the address of a dictionary; an empty dictionary is false,
  and \<^verbatim>\<open>dict(...)\<close> allocates a dictionary with the same entries.
\<close>

definition Session_init ::
  "nat option \<Rightarrow> ('v, 'w) state \<Rightarrow> Session \<times> ('v, 'w) state" where
  "Session_init bindings_arg st =
     (let src = (case bindings_arg of
                   None \<Rightarrow> []
                 | Some m \<Rightarrow> if List.null (heap st m) then [] else heap st m);
          a = next_addr st
      in (\<lparr> x_bindings = a \<rparr>,
          st \<lparr> heap := (heap st)(a := src), next_addr := Suc a \<rparr>))"

text \<open>\<^verbatim>\<open>self._bindings[expr]\<close>, which raises \<^verbatim>\<open>KeyError\<close> on a missing key.\<close>

definition Session_lookup ::
  "(string \<Rightarrow> int) \<Rightarrow> Session \<Rightarrow> ('v, 'w) Expression \<Rightarrow> ('v, 'w) state \<Rightarrow>
   (exn + 'v) \<times> ('v, 'w) state" where
  "Session_lookup h self expr st =
     (case dict_get h (heap st (x_bindings self)) expr of
        None \<Rightarrow> (Inl (KeyError (x_id (attrs expr))), st)
      | Some v \<Rightarrow> (Inr v, st))"

text \<open>
  \<^verbatim>\<open>evaluate_at(self, session)\<close> of the four classes. The computed expression runs
  \<^verbatim>\<open>self._func(*(arg.evaluate_at(session) for arg in self._args))\<close>: the generator
  evaluates the arguments from left to right by \<^verbatim>\<open>evaluate_at\<close> itself, the first
  exception ends the call, and then the function is applied.
\<close>

fun evaluate_at ::
    "(string \<Rightarrow> int) \<Rightarrow> ('v, 'w) Expression \<Rightarrow> Session \<Rightarrow> ('v, 'w) state \<Rightarrow>
     (exn + 'v) \<times> ('v, 'w) state"
  and evaluate_args ::
    "(string \<Rightarrow> int) \<Rightarrow> ('v, 'w) Expression list \<Rightarrow> Session \<Rightarrow> ('v, 'w) state \<Rightarrow>
     (exn + 'v list) \<times> ('v, 'w) state" where
  "evaluate_at h (Expression b) session st = (Inl (NotImplementedError ''Expression''), st)"
| "evaluate_at h (PlaceholderExpression b) session st =
     Session_lookup h session (PlaceholderExpression b) st"
| "evaluate_at h (ConstantExpression b v) session st = (Inr v, st)"
| "evaluate_at h (ComputedExpression b f as r p) session st =
     (case evaluate_args h as session st of
        (Inl e, st') \<Rightarrow> (Inl e, st')
      | (Inr vs, st') \<Rightarrow>
          (case f vs (world st') of (res, w') \<Rightarrow> (res, st' \<lparr> world := w' \<rparr>)))"
| "evaluate_args h [] session st = (Inr [], st)"
| "evaluate_args h (a # as) session st =
     (case evaluate_at h a session st of
        (Inl e, st') \<Rightarrow> (Inl e, st')
      | (Inr v, st') \<Rightarrow>
          (case evaluate_args h as session st' of
             (Inl e, st'') \<Rightarrow> (Inl e, st'')
           | (Inr vs, st'') \<Rightarrow> (Inr (v # vs), st'')))"

text \<open>
  \<^verbatim>\<open>Session.evaluate(self, expr)\<close>:
  \<^verbatim>\<open>if expr not in self._bindings: self._bindings[expr] = expr.evaluate_at(self)\<close>, then
  \<^verbatim>\<open>return self._bindings[expr]\<close>.
\<close>

definition Session_evaluate ::
  "(string \<Rightarrow> int) \<Rightarrow> Session \<Rightarrow> ('v, 'w) Expression \<Rightarrow> ('v, 'w) state \<Rightarrow>
   (exn + 'v) \<times> ('v, 'w) state" where
  "Session_evaluate h self expr st =
     (if \<not> dict_contains h (heap st (x_bindings self)) expr then
        (case evaluate_at h expr self st of
           (Inl e, st') \<Rightarrow> (Inl e, st')
         | (Inr v, st') \<Rightarrow>
             (let a = x_bindings self;
                  st'' = st' \<lparr> heap := (heap st')(a := dict_set h (heap st' a) expr v) \<rparr>
              in Session_lookup h self expr st''))
      else Session_lookup h self expr st)"

subsection \<open>Calls on sessions\<close>

text \<open>
  What a caller may do between two evaluations: any sequence of \<^verbatim>\<open>evaluate\<close> and
  \<^verbatim>\<open>lookup\<close> calls, each on any session and any expression. The caller goes on after a
  call whether it returned or raised, so only the state the call leaves is kept.
\<close>

datatype ('v, 'w) call =
    Evaluate Session "('v, 'w) Expression"
  | Lookup Session "('v, 'w) Expression"

fun run_call :: "(string \<Rightarrow> int) \<Rightarrow> ('v, 'w) call \<Rightarrow> ('v, 'w) state \<Rightarrow> ('v, 'w) state" where
  "run_call h (Evaluate s e) st = snd (Session_evaluate h s e st)"
| "run_call h (Lookup s e) st = snd (Session_lookup h s e st)"

fun run_calls :: "(string \<Rightarrow> int) \<Rightarrow> ('v, 'w) call list \<Rightarrow> ('v, 'w) state \<Rightarrow> ('v, 'w) state" where
  "run_calls h [] st = st"
| "run_calls h (c # cs) st = run_calls h cs (run_call h c st)"

subsection \<open>Concrete expressions and states\<close>

text \<open>
  Small inputs on which the definitions are run: a stand-in for the built-in string hash,
  a store that holds no dictionary yet, a function that counts its own calls in the world
  and one that adds its arguments without touching the world.
\<close>

definition len_hash :: "string \<Rightarrow> int" where
  "len_hash s = int (length s)"

definition empty_state :: "(nat, nat) state" where
  "empty_state = \<lparr> heap = (\<lambda>_. []), next_addr = 0, world = 0 \<rparr>"

definition count_calls :: "(nat, nat) pyfun" where
  "count_calls vs w = (Inr 1, Suc w)"

definition add_args :: "(nat, nat) pyfun" where
  "add_args vs w = (Inr (sum_list vs), w)"

text \<open>
  \<^verbatim>\<open>a = ComputedExpression('a', count_calls, [], proxy=0, _id='a')\<close>, shared by
  \<^verbatim>\<open>f(a, a)\<close> and by the diamond \<^verbatim>\<open>f(g(a), h(a))\<close>.
\<close>

definition shared_a :: "(nat, nat) Expression" where
  "shared_a = ComputedExpression (Expression_init ''a'' 0 (Some ''a'') 1) count_calls [] True False"

definition twice_root :: "(nat, nat) Expression" where
  "twice_root =
     ComputedExpression (Expression_init ''f'' 0 (Some ''f'') 2) add_args [shared_a, shared_a]
       True False"

definition diamond_root :: "(nat, nat) Expression" where
  "diamond_root =
     ComputedExpression (Expression_init ''f'' 0 (Some ''f'') 5) add_args
       [ComputedExpression (Expression_init ''g'' 0 (Some ''g'') 3) add_args [shared_a] True False,
        ComputedExpression (Expression_init ''h'' 0 (Some ''h'') 4) add_args [shared_a] True False]
       True False"

text \<open>A root and its child that were both given the identity \<^verbatim>\<open>'x'\<close>.\<close>

definition collide_child :: "(nat, nat) Expression" where
  "collide_child =
     ComputedExpression (Expression_init ''c'' 0 (Some ''x'') 1) count_calls [] True False"

definition collide_root :: "(nat, nat) Expression" where
  "collide_root =
     ComputedExpression (Expression_init ''r'' 0 (Some ''x'') 2) add_args [collide_child]
       True False"

text \<open>A placeholder, and a store whose dictionary at address 0 binds it to 42.\<close>

definition some_placeholder :: "(nat, nat) Expression" where
  "some_placeholder = PlaceholderExpression_init 0 7"

definition bound_state :: "(nat, nat) state" where
  "bound_state =
     \<lparr> heap = (\<lambda>_. [])(0 := [(some_placeholder, 42)]), next_addr = 1, world = 0 \<rparr>"

text \<open>
  A bare expression and a computed one that were both given the identity \<^verbatim>\<open>'k'\<close>, and a
  store whose dictionary at address 0 binds the first to 9.
\<close>

definition same_id_base :: "(nat, nat) Expression" where
  "same_id_base = Expression (Expression_init ''a'' 0 (Some ''k'') 1)"

definition same_id_computed :: "(nat, nat) Expression" where
  "same_id_computed =
     ComputedExpression (Expression_init ''b'' 5 (Some ''k'') 2) count_calls [] True False"

definition keyed_state :: "(nat, nat) state" where
  "keyed_state = \<lparr> heap = (\<lambda>_. [])(0 := [(same_id_base, 9)]), next_addr = 1, world = 0 \<rparr>"

text \<open>Two bare expressions, at the addresses 1 and 2, that were both given the empty identity.\<close>

definition empty_id_first :: "(nat, nat) Expression" where
  "empty_id_first = Expression (Expression_init ''e'' 0 (Some []) 1)"

definition empty_id_second :: "(nat, nat) Expression" where
  "empty_id_second = Expression (Expression_init ''e'' 0 (Some []) 2)"

text \<open>
  Calls made on the empty session after \<^verbatim>\<open>a\<close> has been evaluated there: two evaluations
  that compute children anew, and a lookup that fails.
\<close>

definition between_calls :: "(nat, nat) call list" where
  "between_calls =
     [Evaluate (fst (Session_init None empty_state)) twice_root,
      Lookup (fst (Session_init None empty_state)) some_placeholder,
      Evaluate (fst (Session_init None empty_state)) collide_root]"

section \<open>Properties\<close>

subsection \<open>Dictionaries\<close>

lemma key_match_iff: "key_match h k e \<longleftrightarrow> x_id (attrs k) = x_id (attrs e)"
  by (auto simp: key_match_def Expression_hash_def Expression_eq_def)

lemma dict_get_set_same: "dict_get h (dict_set h d e v) e = Some v"
  by (induction d) (auto simp: key_match_iff)

lemma dict_set_absent: "dict_get h d e = None \<Longrightarrow> dict_set h d e v = d @ [(e, v)]"
  by (induction d) (auto split: if_splits)

lemma dict_get_append_other:
  "x_id (attrs k) \<noteq> x_id (attrs c) \<Longrightarrow> dict_get h (d @ [(k, v)]) c = dict_get h d c"
  by (induction d) (auto simp: key_match_iff)

lemma dict_get_cong_id:
  "x_id (attrs e1) = x_id (attrs e2) \<Longrightarrow> dict_get h d e1 = dict_get h d e2"
  by (induction d) (auto simp: key_match_iff)

subsection \<open>What an evaluation reads and writes\<close>

text \<open>
  \<^verbatim>\<open>evaluate_at\<close> reads the dictionary of its session and the world, and writes the world only:
  run in a second state that agrees on both, it gives the same result and the same new world.
\<close>

lemma evaluate_depends:
  "heap st2 (x_bindings s) = heap st (x_bindings s) \<Longrightarrow> world st2 = world st \<Longrightarrow>
   evaluate_at h e s st2 =
     (fst (evaluate_at h e s st), st2 \<lparr> world := world (snd (evaluate_at h e s st)) \<rparr>)"
  "heap st2 (x_bindings s) = heap st (x_bindings s) \<Longrightarrow> world st2 = world st \<Longrightarrow>
   evaluate_args h es s st2 =
     (fst (evaluate_args h es s st), st2 \<lparr> world := world (snd (evaluate_args h es s st)) \<rparr>)"
proof (induction h e s st and h es s st arbitrary: st2 and st2
       rule: evaluate_at_evaluate_args.induct)
  case (1 h b session st)
  then show ?case by simp
next
  case (2 h b session st)
  then show ?case by (simp add: Session_lookup_def split: option.split)
next
  case (3 h b v session st)
  then show ?case by simp
next
  case (4 h b f as r p session st)
  obtain x y where R: "evaluate_args h as session st = (x, y)"
    by (cases "evaluate_args h as session st")
  have A: "evaluate_args h as session st2 = (x, st2 \<lparr> world := world y \<rparr>)"
    using "4.IH" [OF "4.prems"] R by simp
  show ?case
    by (cases x) (simp_all add: R A split: prod.split)
next
  case (5 h session st)
  then show ?case by simp
next
  case (6 h a as session st)
  obtain x y where R: "evaluate_at h a session st = (x, y)"
    by (cases "evaluate_at h a session st")
  have A: "evaluate_at h a session st2 = (x, st2 \<lparr> world := world y \<rparr>)"
    using "6.IH"(1) [OF "6.prems"] R by simp
  have "evaluate_at h a session st = (x, st \<lparr> world := world y \<rparr>)"
    using "6.IH"(1) [of st] R by simp
  then have Y: "heap y = heap st"
    using R by (cases y) auto
  show ?case
  proof (cases x)
    case (Inl e)
    then show ?thesis by (simp add: R A)
  next
    case (Inr v)
    obtain x' y' where R': "evaluate_args h as session y = (x', y')"
      by (cases "evaluate_args h as session y")
    have "evaluate_args h as session (st2 \<lparr> world := world y \<rparr>) =
            (x', st2 \<lparr> world := world y, world := world y' \<rparr>)"
      using "6.IH"(2) [OF R [symmetric] Inr, of "st2 \<lparr> world := world y \<rparr>"]
        R' Y "6.prems" by simp
    then show ?thesis
      by (cases x') (simp_all add: R A R' Inr)
  qed
qed


lemma dict_get_append_same: "dict_get h d e = None \<Longrightarrow> dict_get h (d @ [(e, v)]) e = Some v"
  by (induction d) (auto simp: key_match_iff split: if_splits)

lemma evaluate_at_only_world:
  "snd (evaluate_at h e s st) = st \<lparr> world := world (snd (evaluate_at h e s st)) \<rparr>"
  using evaluate_depends(1) [of st s st h e] by (metis snd_conv)

lemma evaluate_at_heap: "heap (snd (evaluate_at h e s st)) = heap st"
  by (subst evaluate_at_only_world) simp

lemma evaluate_at_next_addr: "next_addr (snd (evaluate_at h e s st)) = next_addr st"
  by (subst evaluate_at_only_world) simp

lemma Session_evaluate_bound:
  "dict_get h (heap st (x_bindings s)) e = Some v \<Longrightarrow> Session_evaluate h s e st = (Inr v, st)"
  by (simp add: Session_evaluate_def dict_contains_def Session_lookup_def)

lemma Session_evaluate_unbound:
  assumes "dict_get h (heap st (x_bindings s)) e = None"
  shows "Session_evaluate h s e st =
     (case evaluate_at h e s st of
        (Inl x, st') \<Rightarrow> (Inl x, st')
      | (Inr v, st') \<Rightarrow>
          (Inr v, st' \<lparr> heap := (heap st')(x_bindings s := heap st (x_bindings s) @ [(e, v)]) \<rparr>))"
proof -
  obtain r st' where R: "evaluate_at h e s st = (r, st')"
    by (cases "evaluate_at h e s st")
  have H: "heap st' = heap st"
    using evaluate_at_heap [of h e s st] R by simp
  show ?thesis
    using assms
    by (cases r)
       (simp_all add: Session_evaluate_def dict_contains_def R H Let_def Session_lookup_def
          dict_set_absent dict_get_append_same)
qed


lemma ex_defs:
  "len_hash s = int (length s)"
  "empty_state = \<lparr> heap = (\<lambda>_. []), next_addr = 0, world = 0 \<rparr>"
  "count_calls vs w = (Inr 1, Suc w)"
  "add_args vs w = (Inr (sum_list vs), w)"
  by (simp_all add: len_hash_def empty_state_def count_calls_def add_args_def)

lemmas run_defs = Session_evaluate_def Session_init_def dict_contains_def Session_lookup_def
  Let_def key_match_def Expression_hash_def Expression_eq_def Expression_init_def

lemma explicit_id: "i \<noteq> [] \<Longrightarrow> x_id (Expression_init n p (Some i) a) = i"
  by (simp add: Expression_init_def)

lemma Session_evaluate_binds:
  assumes "Session_evaluate h s e st = (Inr x, st')"
  shows "dict_get h (heap st' (x_bindings s)) e = Some x"
proof (cases "dict_get h (heap st (x_bindings s)) e")
  case None
  obtain r y where R: "evaluate_at h e s st = (r, y)"
    by (cases "evaluate_at h e s st")
  show ?thesis
  proof (cases r)
    case (Inl z)
    then show ?thesis
      using assms None R by (simp add: Session_evaluate_unbound)
  next
    case (Inr z)
    then have "x = z" and "st' = y \<lparr> heap := (heap y)(x_bindings s := heap st (x_bindings s) @ [(e, z)]) \<rparr>"
      using assms None R by (auto simp: Session_evaluate_unbound)
    then show ?thesis
      using None by (simp add: dict_get_append_same)
  qed
next
  case (Some z)
  then show ?thesis
    using assms by (simp add: Session_evaluate_bound)
qed

text \<open>What the constructor of a session leaves behind.\<close>

lemma Session_init_result:
  assumes "Session_init arg st = (s, st1)"
  shows "x_bindings s = next_addr st"
    and "heap st1 = (heap st)(next_addr st := (case arg of None \<Rightarrow> [] | Some m \<Rightarrow> heap st m))"
    and "next_addr st1 = Suc (next_addr st)"
    and "world st1 = world st"
  using assms by (auto simp: Session_init_def Let_def split: option.splits)

lemma placeholder_evaluate_at:
  "evaluate_at h (PlaceholderExpression_init pr addr) s st =
     Session_lookup h s (PlaceholderExpression_init pr addr) st"
  by (simp add: PlaceholderExpression_init_def)

text \<open>
  A change to a dictionary other than that of the session passes through
  \<^verbatim>\<open>Session.evaluate\<close> untouched and does not alter its result.
\<close>

lemma Session_evaluate_frame:
  assumes "m \<noteq> x_bindings s"
  shows "Session_evaluate h s e (st \<lparr> heap := (heap st)(m := d) \<rparr>) =
     (fst (Session_evaluate h s e st),
      (snd (Session_evaluate h s e st))
        \<lparr> heap := (heap (snd (Session_evaluate h s e st)))(m := d) \<rparr>)"
proof -
  let ?st2 = "st \<lparr> heap := (heap st)(m := d) \<rparr>"
  let ?b = "x_bindings s"
  have H: "heap ?st2 ?b = heap st ?b" and W: "world ?st2 = world st"
    using assms by simp_all
  show ?thesis
  proof (cases "dict_get h (heap st ?b) e")
    case (Some v)
    then have "dict_get h (heap ?st2 ?b) e = Some v"
      using H by simp
    then have "Session_evaluate h s e ?st2 = (Inr v, ?st2)"
      by (rule Session_evaluate_bound)
    moreover have "Session_evaluate h s e st = (Inr v, st)"
      using Some by (rule Session_evaluate_bound)
    ultimately show ?thesis by simp
  next
    case None
    then have N2: "dict_get h (heap ?st2 ?b) e = None"
      using H by simp
    obtain r w where R: "evaluate_at h e s st = (r, st \<lparr> world := w \<rparr>)"
      using evaluate_at_only_world [of h e s st] by (metis prod.collapse)
    have R2: "evaluate_at h e s ?st2 = (r, ?st2 \<lparr> world := w \<rparr>)"
      using evaluate_depends(1) [OF H W, of h e] R by simp
    have T: "((heap st)(m := d))(?b := x) = ((heap st)(?b := x))(m := d)" for x
      using assms by (simp add: fun_upd_twist)
    show ?thesis
    proof (cases r)
      case (Inl x)
      have "Session_evaluate h s e ?st2 = (Inl x, ?st2 \<lparr> world := w \<rparr>)"
        using N2 R2 Inl by (simp add: Session_evaluate_unbound)
      moreover have "Session_evaluate h s e st = (Inl x, st \<lparr> world := w \<rparr>)"
        using None R Inl by (simp add: Session_evaluate_unbound)
      ultimately show ?thesis
        by simp
    next
      case (Inr v)
      have "Session_evaluate h s e ?st2 =
          (Inr v, st \<lparr> world := w, heap := ((heap st)(m := d))(?b := heap st ?b @ [(e, v)]) \<rparr>)"
        using N2 R2 Inr assms by (simp add: Session_evaluate_unbound)
      moreover have "Session_evaluate h s e st =
          (Inr v, st \<lparr> world := w, heap := (heap st)(?b := heap st ?b @ [(e, v)]) \<rparr>)"
        using None R Inr by (simp add: Session_evaluate_unbound)
      ultimately show ?thesis
        by (simp add: T)
    qed
  qed
qed


lemma Session_evaluate_other_dicts:
  assumes "m \<noteq> x_bindings s"
  shows "heap (snd (Session_evaluate h s e st)) m = heap st m"
proof (cases "dict_get h (heap st (x_bindings s)) e")
  case (Some v)
  then show ?thesis by (simp add: Session_evaluate_bound)
next
  case None
  obtain r w where R: "evaluate_at h e s st = (r, st \<lparr> world := w \<rparr>)"
    using evaluate_at_only_world [of h e s st] by (metis prod.collapse)
  show ?thesis
    using None R assms by (cases r) (simp_all add: Session_evaluate_unbound)
qed

text \<open>
  A binding of the session's dictionary outlives every later call: \<^verbatim>\<open>evaluate\<close> on the
  same session leaves the dictionary alone or appends to it, and calls on other sessions
  do not touch it.
\<close>

lemma dict_get_append_found:
  "dict_get h d e = Some v \<Longrightarrow> dict_get h (d @ d') e = Some v"
  by (induction d) (auto split: if_splits)

lemma Session_evaluate_own_dict:
  "heap (snd (Session_evaluate h s e st)) (x_bindings s) = heap st (x_bindings s) \<or>
   (\<exists>x. heap (snd (Session_evaluate h s e st)) (x_bindings s) =
          heap st (x_bindings s) @ [(e, x)])"
proof (cases "dict_get h (heap st (x_bindings s)) e")
  case (Some v)
  then show ?thesis by (simp add: Session_evaluate_bound)
next
  case None
  obtain r w where R: "evaluate_at h e s st = (r, st \<lparr> world := w \<rparr>)"
    using evaluate_at_only_world [of h e s st] by (metis prod.collapse)
  show ?thesis
    using None R by (cases r) (simp_all add: Session_evaluate_unbound)
qed

lemma Session_lookup_state: "snd (Session_lookup h s e st) = st"
  by (simp add: Session_lookup_def split: option.split)

lemma bound_persists_call:
  assumes "dict_get h (heap st (x_bindings s)) root = Some v"
  shows "dict_get h (heap (run_call h c st) (x_bindings s)) root = Some v"
proof (cases c)
  case (Evaluate s2 e)
  show ?thesis
  proof (cases "x_bindings s2 = x_bindings s")
    case True
    then show ?thesis
      using assms Evaluate Session_evaluate_own_dict [of h s2 e st]
      by (auto simp: dict_get_append_found)
  next
    case False
    then have "x_bindings s \<noteq> x_bindings s2" by simp
    then show ?thesis
      using assms Evaluate by (simp add: Session_evaluate_other_dicts)
  qed
next
  case (Lookup s2 e)
  then show ?thesis
    using assms by (simp add: Session_lookup_state)
qed

lemma bound_persists:
  "dict_get h (heap st (x_bindings s)) root = Some v \<Longrightarrow>
   dict_get h (heap (run_calls h cs st) (x_bindings s)) root = Some v"
proof (induction cs arbitrary: st)
  case Nil
  then show ?case by simp
next
  case (Cons c cs)
  show ?case
    using Cons.IH [OF bound_persists_call [OF Cons.prems]] by simp
qed

subsection \<open>Sharing\<close>

text \<open>
  C1 (exactly-once evaluation across sharing). The claim does not hold of the code:
  \<^verbatim>\<open>ComputedExpression.evaluate_at\<close> calls \<^verbatim>\<open>arg.evaluate_at(session)\<close> on each argument and
  never \<^verbatim>\<open>session.evaluate\<close>, so a shared child is computed once for every path that
  reaches it. In an empty session, evaluating the diamond \<^verbatim>\<open>f(g(a), h(a))\<close> and evaluating
  \<^verbatim>\<open>f(a, a)\<close> each apply the function of \<^verbatim>\<open>a\<close> twice: the call counter ends at 2.
\<close>

theorem shared_child_applied_twice:
  "fst (Session_evaluate len_hash (fst (Session_init None empty_state)) diamond_root
          (snd (Session_init None empty_state))) = Inr 2 \<and>
   world (snd (Session_evaluate len_hash (fst (Session_init None empty_state)) diamond_root
          (snd (Session_init None empty_state)))) = 2 \<and>
   fst (Session_evaluate len_hash (fst (Session_init None empty_state)) twice_root
          (snd (Session_init None empty_state))) = Inr 2 \<and>
   world (snd (Session_evaluate len_hash (fst (Session_init None empty_state)) twice_root
          (snd (Session_init None empty_state)))) = 2"
  by (simp add: ex_defs run_defs shared_a_def twice_root_def diamond_root_def)

subsection \<open>Identity\<close>

text \<open>
  C2, as stated, fails for the empty identity string: \<^verbatim>\<open>_id or ...\<close> treats it as no
  identity at all, so two objects built with \<^verbatim>\<open>_id=''\<close> get the identities
  \<^verbatim>\<open>'e_1'\<close> and \<^verbatim>\<open>'e_2'\<close> from their addresses and \<^verbatim>\<open>__eq__\<close> is false.
\<close>

theorem empty_identity_not_equal: "\<not> Expression_eq empty_id_first empty_id_second"
  by (simp add: empty_id_first_def empty_id_second_def Expression_eq_def Expression_init_def
      default_id_def str_nat.simps)

text \<open>
  C2 (identity-equality), amended: two expressions of any class, built with the same
  non-empty explicit identity, are equal under \<^verbatim>\<open>__eq__\<close>, have the same hash, and are the
  same key of a dictionary: a lookup of one gives what a lookup of the other gives, a value
  stored under one is found under the other, and a value bound in a session under one, or
  computed by \<^verbatim>\<open>Session.evaluate\<close> on one, is what \<^verbatim>\<open>evaluate\<close> and \<^verbatim>\<open>lookup\<close> return for
  the other. Names, proxies, addresses and classes play no part.
\<close>

theorem identity_equality:
  assumes "i \<noteq> []"
    and "attrs e1 = Expression_init n1 p1 (Some i) a1"
    and "attrs e2 = Expression_init n2 p2 (Some i) a2"
  shows "Expression_eq e1 e2 \<and> Expression_hash h e1 = Expression_hash h e2 \<and>
    dict_get h d e1 = dict_get h d e2 \<and>
    dict_get h (dict_set h d e1 v) e2 = Some v \<and>
    Session_lookup h s e1 st = Session_lookup h s e2 st \<and>
    (\<forall>x. dict_get h (heap st (x_bindings s)) e1 = Some x \<longrightarrow>
         Session_evaluate h s e2 st = (Inr x, st)) \<and>
    (\<forall>x st'. Session_evaluate h s e1 st = (Inr x, st') \<longrightarrow>
         Session_evaluate h s e2 st' = (Inr x, st') \<and> Session_lookup h s e2 st' = (Inr x, st'))"
proof -
  have I: "x_id (attrs e1) = x_id (attrs e2)"
    using assms by (simp add: explicit_id)
  have G: "dict_get h d' e2 = dict_get h d' e1" for d'
    using I [symmetric] by (rule dict_get_cong_id)
  have A: "Expression_eq e1 e2" "Expression_hash h e1 = Expression_hash h e2"
    using I by (simp_all add: Expression_eq_def Expression_hash_def)
  have S: "dict_get h (dict_set h d e1 v) e2 = Some v"
    by (simp add: G dict_get_set_same)
  have L: "Session_lookup h s e1 st = Session_lookup h s e2 st"
    using I by (simp add: Session_lookup_def G split: option.split)
  have B: "Session_evaluate h s e2 st = (Inr x, st)"
    if "dict_get h (heap st (x_bindings s)) e1 = Some x" for x
    using that by (simp add: G Session_evaluate_bound)
  have C: "Session_evaluate h s e2 st' = (Inr x, st') \<and> Session_lookup h s e2 st' = (Inr x, st')"
    if E: "Session_evaluate h s e1 st = (Inr x, st')" for x st'
  proof -
    have "dict_get h (heap st' (x_bindings s)) e2 = Some x"
      using Session_evaluate_binds [OF E] by (simp add: G)
    then show ?thesis
      by (simp add: Session_evaluate_bound Session_lookup_def)
  qed
  show ?thesis
    using A S L G [of d] by (auto dest: B C)
qed

theorem identity_equality_witness:
  "''k'' \<noteq> [] \<and> Expression_eq same_id_base same_id_computed \<and>
   Expression_hash len_hash same_id_base = Expression_hash len_hash same_id_computed \<and>
   Session_evaluate len_hash (fst (Session_init (Some 0) keyed_state)) same_id_computed
      (snd (Session_init (Some 0) keyed_state)) = (Inr 9, snd (Session_init (Some 0) keyed_state))"
proof -
  have i: "''k'' \<noteq> []"
    by simp
  have a: "attrs same_id_base = Expression_init ''a'' 0 (Some ''k'') 1"
    by (simp add: same_id_base_def)
  have b: "attrs same_id_computed = Expression_init ''b'' 5 (Some ''k'') 2"
    by (simp add: same_id_computed_def)
  have bound: "dict_get len_hash
      (heap (snd (Session_init (Some 0) keyed_state))
         (x_bindings (fst (Session_init (Some 0) keyed_state)))) same_id_base = Some 9"
    by (simp add: keyed_state_def Session_init_def key_match_iff)
  show ?thesis
    using i bound
      identity_equality [OF i a b, where h = len_hash and d = "[]" and v = 0
        and s = "fst (Session_init (Some 0) keyed_state)"
        and st = "snd (Session_init (Some 0) keyed_state)"]
    by simp
qed

subsection \<open>Leaves and the base class\<close>

text \<open>
  C6 (constant evaluation): \<^verbatim>\<open>evaluate_at\<close> of a constant built with value \<open>v\<close>, with or
  without a proxy, returns \<open>v\<close> in every session and every state, and leaves the state,
  the dictionaries of all sessions included, as it was.
\<close>

theorem constant_evaluate_at:
  "evaluate_at h (ConstantExpression_init v p addr) session st = (Inr v, st)"
  by (simp add: ConstantExpression_init_def Let_def)

text \<open>
  C8 (abstract-method misuse): on an instance of the base class \<^verbatim>\<open>Expression\<close>,
  \<^verbatim>\<open>evaluate_at\<close> raises \<^verbatim>\<open>NotImplementedError(type(self))\<close> in every session and state,
  and so do \<^verbatim>\<open>requires_partition_by_index\<close> and \<^verbatim>\<open>preserves_partition_by_index\<close>.
\<close>

theorem base_expression_not_implemented:
  "evaluate_at h (Expression b) session st = (Inl (NotImplementedError ''Expression''), st) \<and>
   requires_partition_by_index (Expression b :: ('v, 'w) Expression) =
     Inl (NotImplementedError ''Expression'') \<and>
   preserves_partition_by_index (Expression b :: ('v, 'w) Expression) =
     Inl (NotImplementedError ''Expression'')"
  by simp

subsection \<open>Placeholders\<close>

text \<open>
  C3 (placeholder binding round-trip and unbound failure): let \<open>p\<close> be a placeholder and
  \<open>s\<close> the session built from the initial bindings \<open>arg\<close>. When the initial dictionary
  maps \<open>p\<close> to \<open>v\<close>, evaluating \<open>p\<close> returns \<open>v\<close>. When there are no initial bindings, or
  none for \<open>p\<close>, evaluating \<open>p\<close> raises the \<^verbatim>\<open>KeyError\<close> of the session's lookup, and the
  state after the failure, the session's bindings included, is the state before.
\<close>

theorem placeholder_binding:
  assumes "Session_init arg st0 = (s, st1)" and "p = PlaceholderExpression_init pr addr"
  shows "(\<forall>m v. arg = Some m \<and> dict_get h (heap st0 m) p = Some v \<longrightarrow>
            Session_evaluate h s p st1 = (Inr v, st1) \<and> evaluate_at h p s st1 = (Inr v, st1)) \<and>
         (arg = None \<or> (\<exists>m. arg = Some m \<and> dict_get h (heap st0 m) p = None) \<longrightarrow>
            Session_evaluate h s p st1 = (Inl (KeyError (x_id (attrs p))), st1) \<and>
            evaluate_at h p s st1 = (Inl (KeyError (x_id (attrs p))), st1))"
proof -
  let ?d = "heap st1 (x_bindings s)"
  have D: "?d = (case arg of None \<Rightarrow> [] | Some m \<Rightarrow> heap st0 m)"
    using Session_init_result(1,2) [OF assms(1)] by simp
  have E: "evaluate_at h p s st1 = Session_lookup h s p st1"
    by (simp add: assms(2) placeholder_evaluate_at)
  have bound: "Session_evaluate h s p st1 = (Inr v, st1) \<and> evaluate_at h p s st1 = (Inr v, st1)"
    if "arg = Some m" and "dict_get h (heap st0 m) p = Some v" for m v
  proof -
    have "dict_get h ?d p = Some v"
      using that by (simp add: D)
    then show ?thesis
      by (simp add: Session_evaluate_bound E Session_lookup_def)
  qed
  have unbound: "Session_evaluate h s p st1 = (Inl (KeyError (x_id (attrs p))), st1) \<and>
      evaluate_at h p s st1 = (Inl (KeyError (x_id (attrs p))), st1)"
    if "arg = None \<or> (\<exists>m. arg = Some m \<and> dict_get h (heap st0 m) p = None)"
  proof -
    have N: "dict_get h ?d p = None"
      using that by (auto simp: D)
    then have L: "evaluate_at h p s st1 = (Inl (KeyError (x_id (attrs p))), st1)"
      by (simp add: E Session_lookup_def)
    show ?thesis
      using N L by (simp add: Session_evaluate_unbound)
  qed
  show ?thesis
    using bound unbound by blast
qed

theorem placeholder_binding_witness:
  "Session_evaluate len_hash (fst (Session_init (Some 0) bound_state)) some_placeholder
     (snd (Session_init (Some 0) bound_state)) = (Inr 42, snd (Session_init (Some 0) bound_state)) \<and>
   Session_evaluate len_hash (fst (Session_init None empty_state)) some_placeholder
     (snd (Session_init None empty_state)) =
     (Inl (KeyError ''placeholder_7''), snd (Session_init None empty_state))"
proof -
  have a: "Session_init (Some 0) bound_state =
      (fst (Session_init (Some 0) bound_state), snd (Session_init (Some 0) bound_state))"
    and b: "Session_init None empty_state =
      (fst (Session_init None empty_state), snd (Session_init None empty_state))"
    by simp_all
  have p: "some_placeholder = PlaceholderExpression_init 0 7"
    by (simp add: some_placeholder_def)
  have g: "dict_get len_hash (heap bound_state 0) some_placeholder = Some 42"
    by (simp add: bound_state_def key_match_iff)
  have i: "x_id (attrs some_placeholder) = ''placeholder_7''"
    by (simp add: some_placeholder_def PlaceholderExpression_init_def Expression_init_def
        default_id_def str_nat.simps)
  show ?thesis
    using g i placeholder_binding [OF a p, of len_hash] placeholder_binding [OF b p, of len_hash]
    by simp
qed

subsection \<open>Memoization at the root\<close>

text \<open>
  C4 (idempotent re-evaluation): once \<^verbatim>\<open>s.evaluate(root)\<close> has returned \<open>v\<close>, every later
  call \<^verbatim>\<open>s.evaluate(root)\<close>, whether it follows at once (\<open>cs = []\<close>) or after any calls
  \<open>cs\<close> of \<^verbatim>\<open>evaluate\<close> and \<^verbatim>\<open>lookup\<close> on this or on other sessions, returns \<open>v\<close> again
  and leaves the state it started in as it is: the world, where every call of a wrapped
  function would show, does not change.
\<close>

theorem idempotent_evaluate:
  assumes "Session_evaluate h s root st = (Inr v, st')"
  shows "Session_evaluate h s root (run_calls h cs st') = (Inr v, run_calls h cs st')"
  using bound_persists [OF Session_evaluate_binds [OF assms]] by (rule Session_evaluate_bound)

theorem idempotent_evaluate_witness:
  "fst (Session_evaluate len_hash (fst (Session_init None empty_state)) shared_a
          (snd (Session_init None empty_state))) = Inr 1 \<and>
   world (snd (Session_evaluate len_hash (fst (Session_init None empty_state)) shared_a
          (snd (Session_init None empty_state)))) = 1 \<and>
   world (run_calls len_hash between_calls
     (snd (Session_evaluate len_hash (fst (Session_init None empty_state)) shared_a
          (snd (Session_init None empty_state))))) = 4 \<and>
   Session_evaluate len_hash (fst (Session_init None empty_state)) shared_a
     (run_calls len_hash between_calls
       (snd (Session_evaluate len_hash (fst (Session_init None empty_state)) shared_a
          (snd (Session_init None empty_state))))) =
     (Inr 1, run_calls len_hash between_calls
       (snd (Session_evaluate len_hash (fst (Session_init None empty_state)) shared_a
          (snd (Session_init None empty_state)))))"
proof -
  let ?s = "fst (Session_init None empty_state)"
  let ?st = "snd (Session_init None empty_state)"
  have F: "fst (Session_evaluate len_hash ?s shared_a ?st) = Inr 1"
    and W: "world (snd (Session_evaluate len_hash ?s shared_a ?st)) = 1"
    by (simp_all add: ex_defs run_defs shared_a_def)
  have C: "world (run_calls len_hash between_calls
      (snd (Session_evaluate len_hash ?s shared_a ?st))) = 4"
    by (simp add: between_calls_def ex_defs run_defs shared_a_def twice_root_def
        collide_root_def collide_child_def some_placeholder_def PlaceholderExpression_init_def)
  have E: "Session_evaluate len_hash ?s shared_a ?st =
      (Inr 1, snd (Session_evaluate len_hash ?s shared_a ?st))"
    using F by (metis prod.collapse)
  show ?thesis
    using F W C idempotent_evaluate [OF E, of between_calls] by simp
qed

text \<open>
  C10, as stated, fails when a child carries the identity of its root: the entry stored
  for the root is then found under the child, which was not bound before.
\<close>

theorem child_with_root_identity_cached:
  "\<not> dict_contains len_hash
      (heap (snd (Session_init None empty_state)) (x_bindings (fst (Session_init None empty_state))))
      collide_child \<and>
   fst (Session_lookup len_hash (fst (Session_init None empty_state)) collide_child
     (snd (Session_evaluate len_hash (fst (Session_init None empty_state)) collide_root
        (snd (Session_init None empty_state))))) = Inr 1"
  by (simp add: ex_defs run_defs collide_child_def collide_root_def)

text \<open>
  C10 (only the directly evaluated expression is cached), amended: a call
  \<^verbatim>\<open>s.evaluate(root)\<close> leaves the session's dictionary as it was or appends one entry, for
  \<open>root\<close>, with the value returned; so an expression \<open>c\<close>, a child of the root or not,
  that was not bound before and whose identity differs from the root's is still not
  bound afterwards: \<^verbatim>\<open>s.lookup(c)\<close> raises \<^verbatim>\<open>KeyError\<close>.
\<close>

theorem evaluate_caches_root_only:
  assumes "Session_evaluate h s root st = (r, st')"
  shows "(heap st' (x_bindings s) = heap st (x_bindings s) \<or>
          (\<exists>v. r = Inr v \<and> \<not> dict_contains h (heap st (x_bindings s)) root \<and>
               heap st' (x_bindings s) = heap st (x_bindings s) @ [(root, v)])) \<and>
         (\<forall>c. \<not> dict_contains h (heap st (x_bindings s)) c \<and>
              x_id (attrs c) \<noteq> x_id (attrs root) \<longrightarrow>
              Session_lookup h s c st' = (Inl (KeyError (x_id (attrs c))), st'))"
proof -
  let ?b = "x_bindings s"
  have A: "heap st' ?b = heap st ?b \<or>
          (\<exists>v. r = Inr v \<and> \<not> dict_contains h (heap st ?b) root \<and>
               heap st' ?b = heap st ?b @ [(root, v)])"
  proof (cases "dict_get h (heap st ?b) root")
    case (Some v)
    then show ?thesis using assms by (simp add: Session_evaluate_bound)
  next
    case None
    obtain r0 w where R: "evaluate_at h root s st = (r0, st \<lparr> world := w \<rparr>)"
      using evaluate_at_only_world [of h root s st] by (metis prod.collapse)
    show ?thesis
      using None R assms
      by (cases r0) (auto simp: Session_evaluate_unbound dict_contains_def)
  qed
  have C: "Session_lookup h s c st' = (Inl (KeyError (x_id (attrs c))), st')"
    if "\<not> dict_contains h (heap st ?b) c" and "x_id (attrs c) \<noteq> x_id (attrs root)" for c
  proof -
    have N: "dict_get h (heap st ?b) c = None"
      using that(1) by (simp add: dict_contains_def)
    have "dict_get h (heap st' ?b) c = None"
      using A N that(2) by (auto simp: dict_get_append_other)
    then show ?thesis
      by (simp add: Session_lookup_def)
  qed
  show ?thesis
    using A C by blast
qed


theorem evaluate_caches_root_only_witness:
  "\<not> dict_contains len_hash
      (heap (snd (Session_init None empty_state)) (x_bindings (fst (Session_init None empty_state))))
      shared_a \<and>
   x_id (attrs shared_a) \<noteq> x_id (attrs twice_root) \<and>
   Session_lookup len_hash (fst (Session_init None empty_state)) shared_a
     (snd (Session_evaluate len_hash (fst (Session_init None empty_state)) twice_root
        (snd (Session_init None empty_state)))) =
     (Inl (KeyError ''a''),
      snd (Session_evaluate len_hash (fst (Session_init None empty_state)) twice_root
        (snd (Session_init None empty_state))))"
proof -
  let ?s = "fst (Session_init None empty_state)"
  let ?st = "snd (Session_init None empty_state)"
  have c: "\<not> dict_contains len_hash (heap ?st (x_bindings ?s)) shared_a"
    by (simp add: ex_defs Session_init_def dict_contains_def)
  have d: "x_id (attrs shared_a) \<noteq> x_id (attrs twice_root)"
    and i: "x_id (attrs shared_a) = ''a''"
    by (simp_all add: shared_a_def twice_root_def Expression_init_def)
  have E: "Session_evaluate len_hash ?s twice_root ?st =
      (fst (Session_evaluate len_hash ?s twice_root ?st),
       snd (Session_evaluate len_hash ?s twice_root ?st))"
    by simp
  show ?thesis
    using c d i evaluate_caches_root_only [OF E] by simp
qed

subsection \<open>Construction\<close>

text \<open>
  C5 (partitioning flag defaults): a computed expression built without the two flags
  requires partitioning by index and does not preserve it; one built by
  \<^verbatim>\<open>elementwise_expression\<close> does not require it and preserves it; for a placeholder and
  for a constant both predicates are false.
\<close>

theorem partition_flag_defaults:
  "(\<forall>e w'. ComputedExpression_init name f as p i None None addr w = (Inr e, w') \<longrightarrow>
       requires_partition_by_index e = Inr True \<and> preserves_partition_by_index e = Inr False) \<and>
   (\<forall>e w'. elementwise_expression name f as addr w = (Inr e, w') \<longrightarrow>
       requires_partition_by_index e = Inr False \<and> preserves_partition_by_index e = Inr True) \<and>
   requires_partition_by_index (PlaceholderExpression_init p0 a0 :: ('v, 'w) Expression) = Inr False \<and>
   preserves_partition_by_index (PlaceholderExpression_init p0 a0 :: ('v, 'w) Expression) = Inr False \<and>
   requires_partition_by_index (ConstantExpression_init v0 q0 a1 :: ('v, 'w) Expression) = Inr False \<and>
   preserves_partition_by_index (ConstantExpression_init v0 q0 a1 :: ('v, 'w) Expression) = Inr False"
  by (auto simp: ComputedExpression_init_def elementwise_expression_def
      PlaceholderExpression_init_def ConstantExpression_init_def Let_def
      split: option.splits prod.splits sum.splits)

theorem partition_flag_defaults_witness:
  "ComputedExpression_init ''s'' add_args [] None None None None 3 (0::nat) =
     (Inr (ComputedExpression (Expression_init ''s'' 0 None 3) add_args [] True False), 0) \<and>
   requires_partition_by_index
     (ComputedExpression (Expression_init ''s'' 0 None 3) add_args [] True False) = Inr True \<and>
   preserves_partition_by_index
     (ComputedExpression (Expression_init ''s'' 0 None 3) add_args [] True False) = Inr False \<and>
   elementwise_expression ''s'' add_args [] 3 (0::nat) =
     (Inr (ComputedExpression (Expression_init ''s'' 0 None 3) add_args [] False True), 0) \<and>
   requires_partition_by_index
     (ComputedExpression (Expression_init ''s'' 0 None 3) add_args [] False True) = Inr False \<and>
   preserves_partition_by_index
     (ComputedExpression (Expression_init ''s'' 0 None 3) add_args [] False True) = Inr True"
  using partition_flag_defaults [of "''s''" add_args "[]" None None 3 0]
  by (simp add: ComputedExpression_init_def elementwise_expression_def ex_defs)

text \<open>
  C7 (proxy defaulting): a computed expression built without a proxy gets, at
  construction, the result of its function on the proxies of its arguments in argument
  order, and \<^verbatim>\<open>proxy()\<close> returns it (when the function raises, so does the constructor); a
  constant built without a proxy has its value as proxy.
\<close>

theorem proxy_defaulting:
  "(\<forall>p w'. f (map proxy as) w = (Inr p, w') \<longrightarrow>
      (\<exists>e. ComputedExpression_init name f as None i r q addr w = (Inr e, w') \<and> proxy e = p)) \<and>
   (\<forall>x w'. f (map proxy as) w = (Inl x, w') \<longrightarrow>
      ComputedExpression_init name f as None i r q addr w = (Inl x, w')) \<and>
   proxy (ConstantExpression_init v None a :: ('v, 'w) Expression) = v"
  by (simp add: ComputedExpression_init_def ConstantExpression_init_def Let_def proxy_def
      Expression_init_def)

theorem proxy_defaulting_witness:
  "add_args (map proxy [ConstantExpression_init 2 None 1, ConstantExpression_init 3 None 2]) (0::nat)
     = (Inr 5, 0) \<and>
   (\<exists>e. ComputedExpression_init ''add'' add_args
          [ConstantExpression_init 2 None 1, ConstantExpression_init 3 None 2]
          None None None None 3 (0::nat) = (Inr e, 0) \<and> proxy e = 5)"
  using proxy_defaulting [of add_args "[ConstantExpression_init 2 None 1, ConstantExpression_init 3 None 2]"
      0 "''add''" None None None 3]
  by (simp add: ex_defs ConstantExpression_init_def proxy_def Expression_init_def)

subsection \<open>The session owns its dictionary\<close>

text \<open>
  C9 (initial bindings are copied): the session built from the dictionary at address \<open>m\<close>
  keeps its bindings in a new dictionary with the same entries, and \<open>m\<close> itself is left
  alone. From then on, in any state, replacing the entries of \<open>m\<close> by any others (adding,
  removing or changing some) changes neither the result of \<^verbatim>\<open>evaluate\<close> or \<^verbatim>\<open>lookup\<close> on
  the session nor what these calls do to the rest of the state, and \<^verbatim>\<open>evaluate\<close> never
  changes \<open>m\<close>.
\<close>

theorem session_copies_bindings:
  assumes "m < next_addr (st0 :: ('v, 'w) state)" and "Session_init (Some m) st0 = (s, st1)"
  shows "x_bindings s \<noteq> m \<and> heap st1 m = heap st0 m \<and>
    heap st1 (x_bindings s) = heap st0 m \<and>
    (\<forall>(st :: ('v, 'w) state) d e. Session_evaluate h s e (st \<lparr> heap := (heap st)(m := d) \<rparr>) =
        (fst (Session_evaluate h s e st),
         (snd (Session_evaluate h s e st))
           \<lparr> heap := (heap (snd (Session_evaluate h s e st)))(m := d) \<rparr>)) \<and>
    (\<forall>(st :: ('v, 'w) state) d e. Session_lookup h s e (st \<lparr> heap := (heap st)(m := d) \<rparr>) =
        (fst (Session_lookup h s e st), (snd (Session_lookup h s e st)) \<lparr> heap := (heap st)(m := d) \<rparr>)) \<and>
    (\<forall>(st :: ('v, 'w) state) e. heap (snd (Session_evaluate h s e st)) m = heap st m)"
proof -
  have B: "m \<noteq> x_bindings s"
    using assms Session_init_result(1) [OF assms(2)] by simp
  have C: "heap st1 m = heap st0 m" "heap st1 (x_bindings s) = heap st0 m"
    using assms(1) Session_init_result(1,2) [OF assms(2)] by simp_all
  have L: "Session_lookup h s e (st \<lparr> heap := (heap st)(m := d) \<rparr>) =
        (fst (Session_lookup h s e st), (snd (Session_lookup h s e st)) \<lparr> heap := (heap st)(m := d) \<rparr>)"
    for st :: "('v, 'w) state" and d e
    using B by (simp add: Session_lookup_def split: option.split)
  show ?thesis
  proof (intro conjI allI)
    show "x_bindings s \<noteq> m"
      using B by simp
    show "heap st1 m = heap st0 m" and "heap st1 (x_bindings s) = heap st0 m"
      by (rule C)+
    show "Session_evaluate h s e (st \<lparr> heap := (heap st)(m := d) \<rparr>) =
        (fst (Session_evaluate h s e st),
         (snd (Session_evaluate h s e st))
           \<lparr> heap := (heap (snd (Session_evaluate h s e st)))(m := d) \<rparr>)"
      for st :: "('v, 'w) state" and d e
      by (rule Session_evaluate_frame [OF B])
    show "Session_lookup h s e (st \<lparr> heap := (heap st)(m := d) \<rparr>) =
        (fst (Session_lookup h s e st),
         (snd (Session_lookup h s e st)) \<lparr> heap := (heap st)(m := d) \<rparr>)"
      for st :: "('v, 'w) state" and d e
      by (rule L)
    show "heap (snd (Session_evaluate h s e st)) m = heap st m"
      for st :: "('v, 'w) state" and e
      by (rule Session_evaluate_other_dicts [OF B])
  qed
qed

theorem session_copies_bindings_witness:
  "0 < next_addr bound_state \<and>
   x_bindings (fst (Session_init (Some 0) bound_state)) \<noteq> 0 \<and>
   fst (Session_evaluate len_hash (fst (Session_init (Some 0) bound_state)) some_placeholder
     ((snd (Session_init (Some 0) bound_state))
        \<lparr> heap := (heap (snd (Session_init (Some 0) bound_state)))(0 := []) \<rparr>)) = Inr 42"
proof -
  let ?s = "fst (Session_init (Some 0) bound_state)"
  let ?st = "snd (Session_init (Some 0) bound_state)"
  have n: "0 < next_addr bound_state"
    by (simp add: bound_state_def)
  have a: "Session_init (Some 0) bound_state = (?s, ?st)"
    by simp
  have F: "fst (Session_evaluate len_hash ?s some_placeholder ?st) = Inr 42"
    by (simp add: bound_state_def run_defs some_placeholder_def)
  have B: "x_bindings ?s \<noteq> 0"
    and A: "\<forall>(st :: (nat, nat) state) d e. Session_evaluate len_hash ?s e (st \<lparr> heap := (heap st)(0 := d) \<rparr>) =
        (fst (Session_evaluate len_hash ?s e st),
         (snd (Session_evaluate len_hash ?s e st))
           \<lparr> heap := (heap (snd (Session_evaluate len_hash ?s e st)))(0 := d) \<rparr>)"
    using session_copies_bindings [OF n a, of len_hash] by blast+
  have "fst (Session_evaluate len_hash ?s some_placeholder (?st \<lparr> heap := (heap ?st)(0 := []) \<rparr>)) =
      fst (Session_evaluate len_hash ?s some_placeholder ?st)"
    by (subst A [rule_format]) simp
  then show ?thesis
    using n B F by simp
qed

end
